theory Spec2Isabelle
  imports Main
begin


section \<open>Python values used by the help plugin\<close>

text \<open>
  A Python \<open>str\<close> is a sequence of Unicode code points; it is modelled as the list of
  its code points, so that \<open>strip\<close>, \<open>split\<close>, \<open>replace\<close> and \<open>==\<close> see what Python
  sees. \<open>ustr\<close> reads an ASCII literal as such a string.
\<close>

type_synonym pystr = "nat list"

definition ustr :: "string \<Rightarrow> pystr" where
  "ustr s = map of_char s"

text \<open>
  Entries of a configuration list and caller ids are Python values: strings, integers,
  booleans and \<open>None\<close>; these are the kinds the properties below speak of.
\<close>

datatype pyval = PStr pystr | PInt int | PBool bool | PNone

text \<open>
  The code points for which \<open>str.isspace\<close> holds, which are the ones \<open>str.strip()\<close>
  removes at both ends.
\<close>

definition is_space :: "nat \<Rightarrow> bool" where
  "is_space c \<longleftrightarrow>
     (9 \<le> c \<and> c \<le> 13) \<or> (28 \<le> c \<and> c \<le> 32) \<or> c = 133 \<or> c = 160 \<or> c = 5760 \<or>
     (8192 \<le> c \<and> c \<le> 8202) \<or> c = 8232 \<or> c = 8233 \<or> c = 8239 \<or> c = 8287 \<or>
     c = 12288"

definition strip :: "pystr \<Rightarrow> pystr" where
  "strip s = rev (dropWhile is_space (rev (dropWhile is_space s)))"

text \<open>The separator \<open>'-'\<close>, and \<open>item.split('-', 1)\<close> for an item that contains it.\<close>

definition dash :: nat where
  "dash = 45"

definition split_first :: "pystr \<Rightarrow> pystr \<times> pystr" where
  "split_first s = (takeWhile (\<lambda>c. c \<noteq> dash) s, tl (dropWhile (\<lambda>c. c \<noteq> dash) s))"

text \<open>\<open>command.replace(' ', '_')\<close>.\<close>

definition replace_space :: "pystr \<Rightarrow> pystr" where
  "replace_space s = map (\<lambda>c. if c = 32 then 95 else c) s"

text \<open>\<open>str(v)\<close>: decimal digits for an integer, the string itself for a string.\<close>

fun dec :: "nat \<Rightarrow> pystr" where
  "dec n = (if n < 10 then [48 + n] else dec (n div 10) @ [48 + n mod 10])"

declare dec.simps [simp del]

fun py_str :: "pyval \<Rightarrow> pystr" where
  "py_str (PStr s) = s"
| "py_str (PInt i) = (if i < 0 then 45 # dec (nat (- i)) else dec (nat i))"
| "py_str (PBool b) = (if b then ustr ''True'' else ustr ''False'')"
| "py_str PNone = ustr ''None''"

section \<open>Dictionaries\<close>

text \<open>
  A Python \<open>dict\<close> keeps its keys in insertion order, and assigning to a key that is
  present replaces the value where the key stands. It is modelled as an association list
  with distinct keys; \<open>map_of\<close> is the lookup.
\<close>

type_synonym ('k, 'v) dict = "('k \<times> 'v) list"

fun dict_set :: "'k \<Rightarrow> 'v \<Rightarrow> ('k, 'v) dict \<Rightarrow> ('k, 'v) dict" where
  "dict_set k v [] = [(k, v)]"
| "dict_set k v (p # ps) = (if fst p = k then (k, v) # ps else p # dict_set k v ps)"

definition keys :: "('k, 'v) dict \<Rightarrow> 'k list" where
  "keys d = map fst d"

section \<open>Configuration and the whitelist parser\<close>

text \<open>
  \<open>self.config\<close> may be \<open>None\<close>; an option that the configuration does not carry is read
  with \<open>getattr(..., [])\<close>, so it is \<open>None\<close> here and reads as the empty list.
\<close>

record config =
  cfg_whitelist :: "pyval list option"
  cfg_plugin_whitelist :: "pyval list option"

definition get_whitelist :: "config option \<Rightarrow> pyval list" where
  "get_whitelist cfg =
     (case cfg of None \<Rightarrow> [] | Some c \<Rightarrow> (case cfg_whitelist c of None \<Rightarrow> [] | Some w \<Rightarrow> w))"

definition get_plugin_whitelist :: "config option \<Rightarrow> pyval list" where
  "get_plugin_whitelist cfg =
     (case cfg of None \<Rightarrow> []
      | Some c \<Rightarrow> (case cfg_plugin_whitelist c of None \<Rightarrow> [] | Some w \<Rightarrow> w))"

text \<open>
  The loop of \<open>_parse_whitelist_config\<close> (lines 33 to 36): one step per item, on the
  dictionary built so far. The result maps trigger command to plugin name. (The names of
  the methods are kept without their leading underscores.)
\<close>

fun parse_item :: "pyval \<Rightarrow> (pystr, pystr) dict \<Rightarrow> (pystr, pystr) dict" where
  "parse_item (PStr item) whitelist_config =
     (if dash \<in> set item
      then (case split_first item of
              (plugin_name, trigger_command) \<Rightarrow>
                dict_set (strip trigger_command) (strip plugin_name) whitelist_config)
      else whitelist_config)"
| "parse_item _ whitelist_config = whitelist_config"

definition parse_whitelist_config :: "config option \<Rightarrow> (pystr, pystr) dict" where
  "parse_whitelist_config cfg = fold parse_item (get_plugin_whitelist cfg) []"

text \<open>
  The second parse, inside \<open>get_plugin_whitelist_commands\<close> (lines 170 to 174), keyed the
  other way round: plugin name to trigger command.
\<close>

fun parse_item_by_plugin :: "pyval \<Rightarrow> (pystr, pystr) dict \<Rightarrow> (pystr, pystr) dict" where
  "parse_item_by_plugin (PStr item) whitelist_config =
     (if dash \<in> set item
      then (case split_first item of
              (plugin_name, trigger_command) \<Rightarrow>
                dict_set (strip plugin_name) (strip trigger_command) whitelist_config)
      else whitelist_config)"
| "parse_item_by_plugin _ whitelist_config = whitelist_config"

definition whitelist_by_plugin :: "pyval list \<Rightarrow> (pystr, pystr) dict" where
  "whitelist_by_plugin plugin_whitelist = fold parse_item_by_plugin plugin_whitelist []"

section \<open>The host's registries\<close>

text \<open>Exceptions: the one Python raises on \<open>None.get\<close>, and whatever a collaborator raises.\<close>

datatype error = AttributeError | Raised nat

text \<open>
  An attribute read with \<open>getattr(star, "name", default)\<close>: it may be absent (the
  default applies), hold \<open>None\<close>, or hold a value.
\<close>

datatype 'a attr = Absent | IsNone | Val 'a

text \<open>
  A plugin object, as far as the scan looks at it: its identity (for \<open>is\<close>) and whether
  it is an instance of \<open>Star\<close>.
\<close>

record plugin_obj =
  obj_id :: nat
  is_Star :: bool

text \<open>
  The metadata of one extension, as the host lists it. \<open>star_cls\<close> and \<open>module_path\<close> are
  read with the default \<open>None\<close>, so \<open>None\<close> stands for absent as well.
\<close>

record star =
  star_name :: "pystr attr"
  star_cls :: "plugin_obj option"
  module_path :: "pystr option"
  activated :: bool

datatype event_filter = CommandFilter pystr | CommandGroupFilter pystr | OtherFilter

record handler_md =
  handler_module_path :: pystr
  desc :: "pystr option"
  event_filters :: "event_filter list"

text \<open>An element of \<open>star_handlers_registry\<close>: a \<open>StarHandlerMetadata\<close> or something else.\<close>

datatype registry_item = Metadata handler_md | NotMetadata

text \<open>The default name, four CJK code points meaning "unknown plugin".\<close>

definition unknown_plugin :: pystr where
  "unknown_plugin = [26410, 30693, 25554, 20214]"

definition plugin_name_of :: "star \<Rightarrow> pystr option" where
  "plugin_name_of s =
     (case star_name s of Absent \<Rightarrow> Some unknown_plugin | IsNone \<Rightarrow> None | Val n \<Rightarrow> Some n)"

text \<open>Truth value of an optional string: \<open>None\<close> and \<open>""\<close> are false.\<close>

fun truthy :: "pystr option \<Rightarrow> bool" where
  "truthy None = False"
| "truthy (Some s) = (s \<noteq> [])"

section \<open>Command registry scanner\<close>

text \<open>
  The loop over \<open>handler.event_filters\<close> (lines 137 to 143): the first command or command
  group filter gives the name and ends the loop.
\<close>

fun find_command_name :: "event_filter list \<Rightarrow> pystr option" where
  "find_command_name [] = None"
| "find_command_name (CommandFilter command_name # fs) = Some command_name"
| "find_command_name (CommandGroupFilter group_name # fs) = Some group_name"
| "find_command_name (OtherFilter # fs) = find_command_name fs"

text \<open>Lines 144 to 148: the formatted command of a handler, if it has a command name.\<close>

definition format_command :: "handler_md \<Rightarrow> pystr option" where
  "format_command h =
     (case find_command_name (event_filters h) of
        None \<Rightarrow> None
      | Some command_name \<Rightarrow>
          if command_name = [] then None
          else (case desc h of
                  None \<Rightarrow> Some command_name
                | Some description \<Rightarrow>
                    if description = [] then Some command_name
                    else Some (command_name @ [35] @ description)))"

text \<open>
  Lines 149 and 150: \<open>plugin_commands\<close> is a \<open>defaultdict(list)\<close>; the formatted command is
  appended to the list of the plugin unless it is there.
\<close>

definition get_list :: "(pystr, pystr list) dict \<Rightarrow> pystr \<Rightarrow> pystr list" where
  "get_list plugin_commands plugin_name =
     (case map_of plugin_commands plugin_name of None \<Rightarrow> [] | Some l \<Rightarrow> l)"

definition add_command ::
  "pystr \<Rightarrow> pystr \<Rightarrow> (pystr, pystr list) dict \<Rightarrow> (pystr, pystr list) dict" where
  "add_command plugin_name formatted_command plugin_commands =
     (if formatted_command \<in> set (get_list plugin_commands plugin_name) then plugin_commands
      else dict_set plugin_name (get_list plugin_commands plugin_name @ [formatted_command])
             plugin_commands)"

text \<open>
  The body of the loop over \<open>star_handlers_registry\<close>, which is the same text in both
  scans (lines 130 to 150 and 197 to 222).
\<close>

fun scan_handler ::
  "pystr option \<Rightarrow> pystr \<Rightarrow> registry_item \<Rightarrow> (pystr, pystr list) dict \<Rightarrow>
   (pystr, pystr list) dict" where
  "scan_handler module_path' plugin_name NotMetadata plugin_commands = plugin_commands"
| "scan_handler module_path' plugin_name (Metadata handler) plugin_commands =
     (if Some (handler_module_path handler) \<noteq> module_path' then plugin_commands
      else (case format_command handler of
              None \<Rightarrow> plugin_commands
            | Some formatted_command \<Rightarrow>
                add_command plugin_name formatted_command plugin_commands))"

text \<open>
  The plugin object \<open>self\<close>: its identity, its configuration, what the host answers to
  \<open>self.context.get_all_stars()\<close> (it may raise), and the drawer, which belongs to a
  module outside this file and is taken as a parameter (it may raise too).
\<close>

record 'img my_plugin =
  self_id :: nat
  config :: "config option"
  get_all_stars :: "error + star list"
  draw_help_image :: "(pystr, pystr list) dict \<Rightarrow> error + 'img"

definition is_self :: "'img my_plugin \<Rightarrow> plugin_obj \<Rightarrow> bool" where
  "is_self self plugin_instance \<longleftrightarrow> obj_id plugin_instance = self_id self"

definition reserved :: "pystr option \<Rightarrow> bool" where
  "reserved plugin_name \<longleftrightarrow>
     plugin_name = Some (ustr ''astrbot'') \<or> plugin_name = Some (ustr ''astrbot_plugin_help'')
     \<or> plugin_name = Some (ustr ''astrbot-reminder'')"

text \<open>Lines 119 to 123: the metadata is invalid or incomplete.\<close>

definition invalid_metadata :: "star \<Rightarrow> bool" where
  "invalid_metadata s \<longleftrightarrow>
     \<not> truthy (plugin_name_of s) \<or> \<not> truthy (module_path s) \<or>
     (case star_cls s of None \<Rightarrow> True | Some plugin_instance \<Rightarrow> \<not> is_Star plugin_instance)"

definition is_self_star :: "'img my_plugin \<Rightarrow> star \<Rightarrow> bool" where
  "is_self_star self s \<longleftrightarrow>
     (case star_cls s of None \<Rightarrow> False | Some plugin_instance \<Rightarrow> is_self self plugin_instance)"

text \<open>The body of the loop over the activated extensions in \<open>get_all_commands\<close>.\<close>

definition scan_star ::
  "'img my_plugin \<Rightarrow> registry_item list \<Rightarrow> star \<Rightarrow> (pystr, pystr list) dict \<Rightarrow>
   (pystr, pystr list) dict" where
  "scan_star self star_handlers_registry s plugin_commands =
     (if reserved (plugin_name_of s) then plugin_commands
      else if invalid_metadata s then plugin_commands
      else if is_self_star self s then plugin_commands
      else (case plugin_name_of s of
              None \<Rightarrow> plugin_commands
            | Some plugin_name \<Rightarrow>
                fold (scan_handler (module_path s) plugin_name) star_handlers_registry
                  plugin_commands))"

definition get_all_commands ::
  "'img my_plugin \<Rightarrow> registry_item list \<Rightarrow> (pystr, pystr list) dict" where
  "get_all_commands self star_handlers_registry =
     (case get_all_stars self of
        Inl e \<Rightarrow> []
      | Inr stars \<Rightarrow>
          (let all_stars_metadata = filter activated stars
           in if all_stars_metadata = [] then []
              else fold (scan_star self star_handlers_registry) all_stars_metadata []))"

text \<open>The body of the loop over the activated extensions in the whitelist scan.\<close>

definition scan_star_whitelist ::
  "'img my_plugin \<Rightarrow> registry_item list \<Rightarrow> (pystr, pystr) dict \<Rightarrow> star \<Rightarrow>
   (pystr, pystr list) dict \<Rightarrow> (pystr, pystr list) dict" where
  "scan_star_whitelist self star_handlers_registry whitelist_config s plugin_commands =
     (case plugin_name_of s of
        None \<Rightarrow> plugin_commands
      | Some plugin_name \<Rightarrow>
          if plugin_name \<notin> set (keys whitelist_config) then plugin_commands
          else if invalid_metadata s then plugin_commands
          else if is_self_star self s then plugin_commands
          else fold (scan_handler (module_path s) plugin_name) star_handlers_registry
                 plugin_commands)"

definition get_plugin_whitelist_commands ::
  "'img my_plugin \<Rightarrow> registry_item list \<Rightarrow> (pystr, pystr list) dict" where
  "get_plugin_whitelist_commands self star_handlers_registry =
     (let plugin_whitelist = get_plugin_whitelist (config self)
      in if plugin_whitelist = [] then []
         else (case get_all_stars self of
                 Inl e \<Rightarrow> []
               | Inr stars \<Rightarrow>
                   (let all_stars_metadata = filter activated stars;
                        whitelist_config = whitelist_by_plugin plugin_whitelist
                    in fold (scan_star_whitelist self star_handlers_registry whitelist_config)
                         all_stars_metadata [])))"

section \<open>Replies and the two entry points\<close>

text \<open>
  What a handler yields: \<open>event.plain_result(text)\<close> or
  \<open>event.chain_result([Image.fromBytes(image)])\<close>.
\<close>

datatype 'img result = PlainResult pystr | ChainResult 'img

text \<open>
  The three texts of the source, as code points: "no plugin or command was found", "plugin
  ... was not found or is not active" around the plugin name, and "an error occurred while
  getting the help".
\<close>

definition msg_no_commands :: pystr where
  "msg_no_commands =
     [27809, 26377, 25214, 21040, 20219, 20309, 25554, 20214, 25110, 21629, 20196]"



text \<open>
  The incoming event: \<open>getattr(event.message_obj, "raw_message", None)\<close> is \<open>None\<close> when
  the message carries no raw payload, and a dictionary otherwise.
\<close>

record event =
  raw_message :: "(pystr, pyval) dict option"

text \<open>\<open>raw.get("user_id", None)\<close> on a dictionary.\<close>

definition get_user_id :: "(pystr, pyval) dict \<Rightarrow> pyval" where
  "get_user_id raw = (case map_of raw (ustr ''user_id'') of None \<Rightarrow> PNone | Some v \<Rightarrow> v)"

text \<open>
  The second half of \<open>get_help\<close> (lines 90 to 95), the discovery proper. A result
  \<open>Inr rs\<close> is the list of replies the generator yields; nothing catches what the drawer
  raises.
\<close>

definition discover ::
  "'img my_plugin \<Rightarrow> registry_item list \<Rightarrow> error + 'img result list" where
  "discover self star_handlers_registry =
     (let help_msg = get_all_commands self star_handlers_registry
      in if help_msg = [] then Inr [PlainResult msg_no_commands]
         else (case draw_help_image self help_msg of
                 Inl e \<Rightarrow> Inl e
               | Inr img \<Rightarrow> Inr [ChainResult img]))"

text \<open>
  \<open>get_help\<close> (lines 76 to 95). Calling \<open>.get\<close> on \<open>None\<close> raises \<open>AttributeError\<close>, which
  nothing in the function catches. A caller who is turned away gets the empty list of
  replies (the bare \<open>return\<close> of line 88).
\<close>

definition get_help ::
  "'img my_plugin \<Rightarrow> registry_item list \<Rightarrow> event \<Rightarrow> error + 'img result list" where
  "get_help self star_handlers_registry ev =
     (case raw_message ev of
        None \<Rightarrow> Inl AttributeError
      | Some raw \<Rightarrow>
          (let whitelist = get_whitelist (config self);
               user_id = get_user_id raw
           in if whitelist \<noteq> [] \<and> user_id \<noteq> PNone
              then (let user_id_str = py_str user_id;
                        whitelist_str = map py_str whitelist
                    in if user_id_str \<notin> set whitelist_str then Inr []
                       else discover self star_handlers_registry)
              else discover self star_handlers_registry))"


section \<open>Dynamic handler synthesis\<close>

text \<open>
  A closure is the code of \<open>whitelist_handler\<close> with the variables it captured. The only
  captured variable is the parameter \<open>plugin_name\<close> of the call of \<open>make_handler\<close> that
  created it.
\<close>

datatype handler = Closure (bound_plugin_name: pystr)

definition make_handler :: "pystr \<Rightarrow> handler" where
  "make_handler plugin_name = Closure plugin_name"



text \<open>
  Modelled from the spec: the host's command dispatch registration behind
  \<open>filter.command(command)(handler_func)\<close>, which the spec gives as a mechanism
  accepting a trigger phrase and a handler function. It records the pair and gives the
  handler back.
\<close>

type_synonym dispatch = "(pystr \<times> handler) list"

definition filter_command :: "pystr \<Rightarrow> handler \<Rightarrow> dispatch \<Rightarrow> handler \<times> dispatch" where
  "filter_command command handler_func table =
     (handler_func, table @ [(command, handler_func)])"

text \<open>Line 71: the attribute name under which a handler is bound to the instance.\<close>

definition handler_name :: "pystr \<Rightarrow> pystr" where
  "handler_name command = ustr ''whitelist_'' @ replace_space command"

text \<open>
  The body of the loop of \<open>_create_whitelist_handlers\<close> (lines 43 to 73), on the state it
  changes: the host's dispatch table and the attributes set on the instance.
\<close>

record synthesized =
  registered :: dispatch
  attributes :: "(pystr, handler) dict"

fun create_handler :: "pystr \<times> pystr \<Rightarrow> synthesized \<Rightarrow> synthesized" where
  "create_handler (command, plugin_name) st =
     (let handler_func = make_handler plugin_name;
          (decorated_handler, registered') = filter_command command handler_func (registered st)
      in \<lparr>registered = registered',
          attributes = dict_set (handler_name command) decorated_handler (attributes st)\<rparr>)"

definition create_whitelist_handlers :: "(pystr, pystr) dict \<Rightarrow> synthesized" where
  "create_whitelist_handlers whitelist_commands =
     fold create_handler whitelist_commands \<lparr>registered = [], attributes = []\<rparr>"

text \<open>
  \<open>__init__\<close> (lines 19 to 26): parse the configuration, then create the handlers.
\<close>

definition init :: "config option \<Rightarrow> synthesized" where
  "init cfg = create_whitelist_handlers (parse_whitelist_config cfg)"

section \<open>Notions used to state the properties\<close>

text \<open>
  What one item of \<open>plugin_whitelist\<close> assigns in the two parses: the trimmed trigger
  command and the trimmed plugin name, when the item is a string that contains the
  separator.
\<close>

definition entry_of :: "pyval \<Rightarrow> (pystr \<times> pystr) option" where
  "entry_of item =
     (case item of
        PStr s \<Rightarrow>
          if dash \<in> set s
          then Some (strip (snd (split_first s)), strip (fst (split_first s)))
          else None
      | _ \<Rightarrow> None)"

definition trigger_of :: "pyval \<Rightarrow> pystr option" where
  "trigger_of item = map_option fst (entry_of item)"

definition plugin_of :: "pyval \<Rightarrow> pystr option" where
  "plugin_of item = map_option snd (entry_of item)"

text \<open>A configuration that carries \<open>plugin_whitelist\<close> only.\<close>

definition cfg_of :: "pyval list \<Rightarrow> config option" where
  "cfg_of items = Some \<lparr>cfg_whitelist = None, cfg_plugin_whitelist = Some items\<rparr>"


subsection \<open>A sample host\<close>

text \<open>
  Five extensions: \<open>A\<close> and \<open>B\<close>, one with the reserved name \<open>astrbot\<close>, the help plugin
  itself (object 0) under the name \<open>Help\<close>, and a deactivated one; and a handler registry
  in which two handlers of \<open>A\<close> format to the same string. The drawer of the sample
  returns the mapping it is given, so that a reply shows what was drawn.
\<close>

definition sample_star :: "string \<Rightarrow> nat \<Rightarrow> string \<Rightarrow> bool \<Rightarrow> star" where
  "sample_star n i m a =
     \<lparr>star_name = Val (ustr n), star_cls = Some \<lparr>obj_id = i, is_Star = True\<rparr>,
      module_path = Some (ustr m), activated = a\<rparr>"

definition sample_stars :: "star list" where
  "sample_stars =
     [sample_star ''A'' 1 ''a.mod'' True, sample_star ''B'' 2 ''b.mod'' True,
      sample_star ''astrbot'' 3 ''core.mod'' True, sample_star ''Help'' 0 ''help.mod'' True,
      sample_star ''Off'' 4 ''off.mod'' False]"

definition sample_md :: "string \<Rightarrow> string option \<Rightarrow> event_filter list \<Rightarrow> registry_item" where
  "sample_md m d fs =
     Metadata \<lparr>handler_module_path = ustr m, desc = map_option ustr d, event_filters = fs\<rparr>"

definition sample_registry :: "registry_item list" where
  "sample_registry =
     [sample_md ''a.mod'' (Some ''first'') [CommandFilter (ustr ''a1'')],
      NotMetadata,
      sample_md ''a.mod'' (Some ''first'') [OtherFilter, CommandFilter (ustr ''a1'')],
      sample_md ''a.mod'' None [CommandGroupFilter (ustr ''a2'')],
      sample_md ''b.mod'' (Some []) [CommandFilter (ustr ''b1'')],
      sample_md ''core.mod'' None [CommandFilter (ustr ''plugin'')],
      sample_md ''help.mod'' None [CommandFilter (ustr ''help'')],
      sample_md ''off.mod'' None [CommandFilter (ustr ''off'')]]"

definition sample_self ::
  "config option \<Rightarrow> error + star list \<Rightarrow> (pystr, pystr list) dict my_plugin" where
  "sample_self cfg stars =
     \<lparr>self_id = 0, config = cfg, get_all_stars = stars, draw_help_image = (\<lambda>m. Inr m)\<rparr>"

text \<open>A configuration with a caller whitelist only, and an event sent by a caller id.\<close>

definition cfg_callers :: "pyval list \<Rightarrow> config option" where
  "cfg_callers callers = Some \<lparr>cfg_whitelist = Some callers, cfg_plugin_whitelist = None\<rparr>"

definition event_from :: "pyval \<Rightarrow> event" where
  "event_from uid = \<lparr>raw_message = Some [(ustr ''user_id'', uid)]\<rparr>"


subsection \<open>What the scan should return, in the words of the spec\<close>

text \<open>
  The formatted strings of the handlers the scan retains for a module path, in the order
  of the handler registry.
\<close>

definition item_commands :: "pystr option \<Rightarrow> registry_item \<Rightarrow> pystr list" where
  "item_commands mp item =
     (case item of
        NotMetadata \<Rightarrow> []
      | Metadata h \<Rightarrow>
          if Some (handler_module_path h) = mp
          then (case format_command h of None \<Rightarrow> [] | Some fc \<Rightarrow> [fc])
          else [])"

definition handler_commands :: "registry_item list \<Rightarrow> pystr option \<Rightarrow> pystr list" where
  "handler_commands star_handlers_registry mp =
     concat (map (item_commands mp) star_handlers_registry)"

text \<open>
  The extensions the two scans retain: activated, valid metadata, not the help plugin
  itself, and not a reserved name (full scan) or a name among the keys of the whitelist
  (whitelist scan).
\<close>

definition retained :: "'img my_plugin \<Rightarrow> star \<Rightarrow> bool" where
  "retained self s \<longleftrightarrow>
     activated s \<and> \<not> reserved (plugin_name_of s) \<and> \<not> invalid_metadata s \<and>
     \<not> is_self_star self s"

definition whitelisted :: "'img my_plugin \<Rightarrow> star \<Rightarrow> bool" where
  "whitelisted self s \<longleftrightarrow>
     activated s \<and>
     (case plugin_name_of s of
        None \<Rightarrow> False
      | Some n \<Rightarrow> n \<in> set (keys (whitelist_by_plugin (get_plugin_whitelist (config self))))) \<and>
     \<not> invalid_metadata s \<and> \<not> is_self_star self s"

text \<open>
  All formatted strings that the retained extensions named \<open>k\<close> contribute, in the order
  of the extension registry, with repetitions.
\<close>

definition commands_of ::
  "(star \<Rightarrow> bool) \<Rightarrow> registry_item list \<Rightarrow> star list \<Rightarrow> pystr \<Rightarrow> pystr list" where
  "commands_of keep star_handlers_registry stars k =
     concat (map (\<lambda>s. if keep s \<and> plugin_name_of s = Some k
                       then handler_commands star_handlers_registry (module_path s) else [])
            stars)"

text \<open>Keep the first occurrence of every element, in order.\<close>

fun dedup_first :: "'a list \<Rightarrow> 'a list" where
  "dedup_first [] = []"
| "dedup_first (x # xs) = x # filter (\<lambda>y. y \<noteq> x) (dedup_first xs)"

text \<open>Appending to a list what is not in it, the accumulation of lines 149 and 150.\<close>

definition append_new :: "'a \<Rightarrow> 'a list \<Rightarrow> 'a list" where
  "append_new x l = (if x \<in> set l then l else l @ [x])"

text \<open>One step of either scan, for the extensions a predicate keeps: the commands of the
  handlers of the module are added under the name of the extension.\<close>

definition scan_kept ::
  "(star \<Rightarrow> bool) \<Rightarrow> registry_item list \<Rightarrow> star \<Rightarrow> (pystr, pystr list) dict \<Rightarrow>
   (pystr, pystr list) dict" where
  "scan_kept keep reg s pc =
     (case plugin_name_of s of
        None \<Rightarrow> pc
      | Some n \<Rightarrow> if keep s then fold (add_command n) (handler_commands reg (module_path s)) pc
                  else pc)"

text \<open>
  A plugin whitelist that lists \<open>A\<close>, the reserved name \<open>astrbot\<close>, the help plugin
  itself and the deactivated extension of the sample host.
\<close>

definition cfg_listed :: "config option" where
  "cfg_listed = cfg_of [PStr (ustr ''A-cmdA''), PStr (ustr ''astrbot-core''),
                      PStr (ustr ''Help-h''), PStr (ustr ''Off-o'')]"

section \<open>Evaluation on concrete inputs\<close>

text \<open>The definitions to unfold when a function is run on the sample host.\<close>

lemmas sample_defs = sample_self_def sample_stars_def sample_star_def sample_registry_def
  sample_md_def cfg_of_def

lemmas string_defs = ustr_def dash_def strip_def is_space_def split_first_def replace_space_def

lemmas scan_defs = get_all_commands_def get_plugin_whitelist_commands_def scan_star_def
  scan_star_whitelist_def reserved_def invalid_metadata_def is_self_star_def is_self_def
  plugin_name_of_def format_command_def add_command_def get_list_def keys_def
  whitelist_by_plugin_def get_plugin_whitelist_def parse_whitelist_config_def

section \<open>Dictionaries and the whitelist parser\<close>

lemma map_of_dict_set: "map_of (dict_set k v d) = (map_of d)(k \<mapsto> v)"
  by (induction d) (auto simp: fun_eq_iff)

lemma keys_dict_set:
  "keys (dict_set k v d) = (if k \<in> set (keys d) then keys d else keys d @ [k])"
  by (induction d) (auto simp: keys_def)

lemma distinct_keys_dict_set: "distinct (keys d) \<Longrightarrow> distinct (keys (dict_set k v d))"
  by (simp add: keys_dict_set)

lemma set_dict_set: "set (dict_set k v d) \<subseteq> insert (k, v) (set d)"
  by (induction d) auto

lemma parse_item_entry:
  "parse_item item d = (case entry_of item of None \<Rightarrow> d | Some (t, p) \<Rightarrow> dict_set t p d)"
  by (cases item) (auto simp: entry_of_def split: prod.splits)

lemma parse_item_by_plugin_entry:
  "parse_item_by_plugin item d =
     (case entry_of item of None \<Rightarrow> d | Some (t, p) \<Rightarrow> dict_set p t d)"
  by (cases item) (auto simp: entry_of_def split: prod.splits)

lemma split_first_entry:
  "dash \<notin> set A \<Longrightarrow> split_first (A @ dash # B) = (A, B)"
  by (induction A) (auto simp: split_first_def)

lemma entry_of_form:
  "dash \<notin> set A \<Longrightarrow> entry_of (PStr (A @ dash # B)) = Some (strip B, strip A)"
  by (simp add: entry_of_def split_first_entry)

lemma fold_parse_other:
  "Some k \<notin> trigger_of ` set items \<Longrightarrow> map_of (fold parse_item items d) k = map_of d k"
proof (induction items arbitrary: d)
  case Nil
  then show ?case by simp
next
  case (Cons item items)
  then have "map_of (fold parse_item items (parse_item item d)) k = map_of (parse_item item d) k"
    by simp
  moreover have "map_of (parse_item item d) k = map_of d k"
    using Cons.prems
    by (auto simp: parse_item_entry trigger_of_def map_of_dict_set split: option.splits)
  ultimately show ?case by simp
qed

lemma fold_parse_by_plugin_other:
  "Some k \<notin> plugin_of ` set items \<Longrightarrow>
   map_of (fold parse_item_by_plugin items d) k = map_of d k"
proof (induction items arbitrary: d)
  case Nil
  then show ?case by simp
next
  case (Cons item items)
  then have "map_of (fold parse_item_by_plugin items (parse_item_by_plugin item d)) k =
             map_of (parse_item_by_plugin item d) k"
    by simp
  moreover have "map_of (parse_item_by_plugin item d) k = map_of d k"
    using Cons.prems
    by (auto simp: parse_item_by_plugin_entry plugin_of_def map_of_dict_set split: option.splits)
  ultimately show ?case by simp
qed

lemma fold_parse_entry:
  assumes "entry_of item = Some (t, p)" and "Some t \<notin> trigger_of ` set post"
  shows "map_of (fold parse_item (pre @ item # post) d) t = Some p"
  using assms by (simp add: fold_parse_other parse_item_entry map_of_dict_set)

lemma fold_parse_by_plugin_entry:
  assumes "entry_of item = Some (t, p)" and "Some p \<notin> plugin_of ` set post"
  shows "map_of (fold parse_item_by_plugin (pre @ item # post) d) p = Some t"
  using assms by (simp add: fold_parse_by_plugin_other parse_item_by_plugin_entry map_of_dict_set)

lemma fold_parse_skip:
  "entry_of item = None \<Longrightarrow>
   fold parse_item (pre @ item # post) d = fold parse_item (pre @ post) d"
  by (simp add: parse_item_entry)

lemma fold_parse_by_plugin_skip:
  "entry_of item = None \<Longrightarrow>
   fold parse_item_by_plugin (pre @ item # post) d = fold parse_item_by_plugin (pre @ post) d"
  by (simp add: parse_item_by_plugin_entry)

lemma entry_of_no_dash: "dash \<notin> set s \<Longrightarrow> entry_of (PStr s) = None"
  by (simp add: entry_of_def)


text \<open>
  The overwrite rule in full: a trigger is mapped to the plugin name of the last item that
  assigns it.
\<close>

lemma parse_last_wins:
  "map_of (fold parse_item items []) t =
     (if filter (\<lambda>i. trigger_of i = Some t) items = [] then None
      else plugin_of (last (filter (\<lambda>i. trigger_of i = Some t) items)))"
proof (induction items rule: rev_induct)
  case Nil
  then show ?case by simp
next
  case (snoc item items)
  show ?case
  proof (cases "trigger_of item = Some t")
    case True
    then obtain p where "entry_of item = Some (t, p)"
      by (auto simp: trigger_of_def)
    with True show ?thesis
      by (simp add: parse_item_entry plugin_of_def map_of_dict_set)
  next
    case False
    then have "map_of (parse_item item d) t = map_of d t" for d
      by (auto simp: parse_item_entry trigger_of_def map_of_dict_set split: option.splits)
    with False snoc show ?thesis
      by simp
  qed
qed

lemma distinct_keys_fold_parse:
  "distinct (keys d) \<Longrightarrow> distinct (keys (fold parse_item items d))"
  by (induction items arbitrary: d)
     (auto simp: parse_item_entry distinct_keys_dict_set split: option.splits)

lemma registered_fold:
  "registered (fold create_handler d st) =
     registered st @ map (\<lambda>(command, plugin_name). (command, make_handler plugin_name)) d"
  by (induction d arbitrary: st) (auto simp: filter_command_def Let_def)

text \<open>
  What the loop hands to the host, call by call: for every item of the parsed whitelist, in
  order, the trigger command and a closure that captured the plugin name of that item.
\<close>

lemma registered_init:
  "registered (init cfg) =
     map (\<lambda>(command, plugin_name). (command, Closure plugin_name)) (parse_whitelist_config cfg)"
  by (simp add: init_def create_whitelist_handlers_def registered_fold make_handler_def)

section \<open>The scans as folds over the retained extensions\<close>

lemma dedup_first_filter: "dedup_first (filter P xs) = filter P (dedup_first xs)"
proof (induction xs)
  case Nil
  then show ?case by simp
next
  case (Cons x xs)
  have "filter P (filter (\<lambda>y. y \<noteq> x) ys) = filter (\<lambda>y. y \<noteq> x) (filter P ys)" for ys
    by (induction ys) auto
  moreover have "\<not> P x \<Longrightarrow> filter P (filter (\<lambda>y. y \<noteq> x) ys) = filter P ys" for ys
    by (induction ys) auto
  ultimately show ?case using Cons by simp
qed

lemma set_dedup_first: "set (dedup_first xs) = set xs"
  by (induction xs) auto

lemma distinct_dedup_first: "distinct (dedup_first xs)"
  by (induction xs) (auto simp: set_dedup_first)

lemma fold_append_new:
  "fold append_new xs acc = acc @ dedup_first (filter (\<lambda>x. x \<notin> set acc) xs)"
proof (induction xs arbitrary: acc)
  case Nil
  then show ?case by simp
next
  case (Cons x xs)
  have step: "fold append_new (x # xs) acc = fold append_new xs (append_new x acc)"
    by simp
  show ?case
  proof (cases "x \<in> set acc")
    case True
    then have "append_new x acc = acc"
      by (simp add: append_new_def)
    with True show ?thesis
      unfolding step by (simp add: Cons.IH)
  next
    case False
    then have new: "append_new x acc = acc @ [x]"
      by (simp add: append_new_def)
    have "filter (\<lambda>y. y \<notin> set (acc @ [x])) xs =
          filter (\<lambda>y. y \<noteq> x) (filter (\<lambda>y. y \<notin> set acc) xs)"
      by (induction xs) auto
    with False show ?thesis
      unfolding step new by (simp add: Cons.IH dedup_first_filter)
  qed
qed

lemma fold_append_new_Nil: "fold append_new xs [] = dedup_first xs"
  by (simp add: fold_append_new)

lemma get_list_dict_set:
  "get_list (dict_set n l pc) k = (if k = n then l else get_list pc k)"
  by (simp add: get_list_def map_of_dict_set)

lemma get_list_add_command:
  "get_list (add_command n fc pc) k =
     (if k = n then append_new fc (get_list pc n) else get_list pc k)"
  by (simp add: add_command_def get_list_dict_set append_new_def)

lemma get_list_keys: "fc \<in> set (get_list pc n) \<Longrightarrow> n \<in> set (keys pc)"
proof -
  assume "fc \<in> set (get_list pc n)"
  then have "map_of pc n \<noteq> None"
    by (cases "map_of pc n") (simp_all add: get_list_def)
  then show ?thesis
    by (simp add: keys_def map_of_eq_None_iff)
qed

lemma keys_add_command: "set (keys (add_command n fc pc)) = insert n (set (keys pc))"
  by (auto simp: add_command_def keys_dict_set dest: get_list_keys)

lemma distinct_keys_add_command:
  "distinct (keys pc) \<Longrightarrow> distinct (keys (add_command n fc pc))"
  by (simp add: add_command_def distinct_keys_dict_set)

lemma fold_add_command:
  "get_list (fold (add_command n) fcs pc) k =
     (if k = n then fold append_new fcs (get_list pc n) else get_list pc k)"
  by (induction fcs arbitrary: pc) (simp_all add: get_list_add_command)

lemma keys_fold_add_command:
  "set (keys (fold (add_command n) fcs pc)) =
     (if fcs = [] then set (keys pc) else insert n (set (keys pc)))"
  by (induction fcs arbitrary: pc) (auto simp: keys_add_command)

lemma distinct_keys_fold_add_command:
  "distinct (keys pc) \<Longrightarrow> distinct (keys (fold (add_command n) fcs pc))"
  by (induction fcs arbitrary: pc) (simp_all add: distinct_keys_add_command)

lemma fold_scan_handler:
  "fold (scan_handler mp n) reg pc = fold (add_command n) (handler_commands reg mp) pc"
proof (induction reg arbitrary: pc)
  case Nil
  then show ?case by (simp add: handler_commands_def)
next
  case (Cons item reg)
  have "handler_commands (item # reg) mp = handler_commands [item] mp @ handler_commands reg mp"
    by (simp add: handler_commands_def)
  moreover have "scan_handler mp n item pc = fold (add_command n) (handler_commands [item] mp) pc"
    by (cases item) (auto simp: handler_commands_def item_commands_def split: option.splits)
  ultimately show ?case
    by (simp add: Cons.IH)
qed

lemma scan_star_kept:
  "activated s \<Longrightarrow> scan_star self reg s pc = scan_kept (retained self) reg s pc"
  by (auto simp: scan_star_def scan_kept_def retained_def fold_scan_handler invalid_metadata_def
      split: option.splits)

lemma scan_star_whitelist_kept:
  "activated s \<Longrightarrow>
   scan_star_whitelist self reg (whitelist_by_plugin (get_plugin_whitelist (config self))) s pc =
     scan_kept (whitelisted self) reg s pc"
  by (auto simp: scan_star_whitelist_def scan_kept_def whitelisted_def fold_scan_handler
      split: option.splits)

lemma get_list_scan_kept:
  "get_list (scan_kept keep reg s pc) k =
     fold append_new (commands_of keep reg [s] k) (get_list pc k)"
  by (auto simp: scan_kept_def commands_of_def fold_add_command split: option.splits)

lemma commands_of_Cons:
  "commands_of keep reg (s # stars) k = commands_of keep reg [s] k @ commands_of keep reg stars k"
  by (simp add: commands_of_def)

lemma get_list_fold_scan_kept:
  "get_list (fold (scan_kept keep reg) stars pc) k =
     fold append_new (commands_of keep reg stars k) (get_list pc k)"
proof (induction stars arbitrary: pc)
  case Nil
  then show ?case by (simp add: commands_of_def)
next
  case (Cons s stars)
  show ?case
    by (simp add: Cons.IH get_list_scan_kept commands_of_Cons [of keep reg s stars])
qed

lemma keys_scan_kept:
  "set (keys (scan_kept keep reg s pc)) =
     set (keys pc) \<union> {k. commands_of keep reg [s] k \<noteq> []}"
  by (auto simp: scan_kept_def commands_of_def keys_fold_add_command split: option.splits)

lemma keys_fold_scan_kept:
  "set (keys (fold (scan_kept keep reg) stars pc)) =
     set (keys pc) \<union> {k. commands_of keep reg stars k \<noteq> []}"
proof (induction stars arbitrary: pc)
  case Nil
  then show ?case by (simp add: commands_of_def)
next
  case (Cons s stars)
  show ?case
    by (auto simp: Cons.IH keys_scan_kept commands_of_Cons [of keep reg s stars])
qed

lemma distinct_keys_fold_scan_kept:
  "distinct (keys pc) \<Longrightarrow> distinct (keys (fold (scan_kept keep reg) stars pc))"
proof (induction stars arbitrary: pc)
  case Nil
  then show ?case by simp
next
  case (Cons s stars)
  then show ?case
    by (auto simp: scan_kept_def distinct_keys_fold_add_command split: option.splits)
qed

lemma map_of_get_list:
  "map_of pc k = (if k \<in> set (keys pc) then Some (get_list pc k) else None)"
  by (cases "map_of pc k") (auto simp: get_list_def keys_def map_of_eq_None_iff [symmetric])

lemma fold_scan_kept_filter:
  assumes "\<And>s. keep s \<Longrightarrow> P s"
  shows "fold (scan_kept keep reg) (filter P stars) pc = fold (scan_kept keep reg) stars pc"
proof (induction stars arbitrary: pc)
  case Nil
  then show ?case by simp
next
  case (Cons s stars)
  have "\<not> P s \<Longrightarrow> scan_kept keep reg s pc = pc"
    using assms by (auto simp: scan_kept_def split: option.splits)
  then show ?case
    by (simp add: Cons.IH)
qed

lemma retained_activated: "retained self s \<Longrightarrow> activated s"
  by (simp add: retained_def)

lemma whitelisted_activated: "whitelisted self s \<Longrightarrow> activated s"
  by (simp add: whitelisted_def)

lemma get_all_commands_kept:
  assumes "get_all_stars self = Inr stars"
  shows "get_all_commands self reg = fold (scan_kept (retained self) reg) stars []"
proof -
  have "fold (scan_star self reg) (filter activated stars) [] =
        fold (scan_kept (retained self) reg) (filter activated stars) []"
    by (rule fold_cong) (auto simp: scan_star_kept fun_eq_iff)
  also have "\<dots> = fold (scan_kept (retained self) reg) stars []"
    by (rule fold_scan_kept_filter) (rule retained_activated)
  finally have "fold (scan_star self reg) (filter activated stars) [] =
                fold (scan_kept (retained self) reg) stars []" .
  moreover have "filter activated stars = [] \<Longrightarrow>
                 fold (scan_star self reg) (filter activated stars) [] = []"
    by simp
  ultimately show ?thesis
    using assms by (auto simp: get_all_commands_def Let_def)
qed

lemma whitelist_by_plugin_Nil: "whitelist_by_plugin [] = []"
  by (simp add: whitelist_by_plugin_def)

lemma whitelisted_empty:
  "get_plugin_whitelist (config self) = [] \<Longrightarrow> \<not> whitelisted self s"
  by (auto simp: whitelisted_def whitelist_by_plugin_Nil keys_def split: option.splits)

lemma fold_scan_kept_none:
  "(\<And>s. \<not> keep s) \<Longrightarrow> fold (scan_kept keep reg) stars pc = pc"
  by (induction stars arbitrary: pc) (auto simp: scan_kept_def split: option.splits)

lemma get_plugin_whitelist_commands_kept:
  assumes "get_all_stars self = Inr stars"
  shows "get_plugin_whitelist_commands self reg = fold (scan_kept (whitelisted self) reg) stars []"
proof (cases "get_plugin_whitelist (config self) = []")
  case True
  then have "fold (scan_kept (whitelisted self) reg) stars [] = []"
    by (intro fold_scan_kept_none) (rule whitelisted_empty)
  with True show ?thesis
    by (simp add: get_plugin_whitelist_commands_def)
next
  case False
  let ?wc = "whitelist_by_plugin (get_plugin_whitelist (config self))"
  have "fold (scan_star_whitelist self reg ?wc) (filter activated stars) [] =
        fold (scan_kept (whitelisted self) reg) (filter activated stars) []"
    by (rule fold_cong) (auto simp: scan_star_whitelist_kept fun_eq_iff)
  also have "\<dots> = fold (scan_kept (whitelisted self) reg) stars []"
    by (rule fold_scan_kept_filter) (rule whitelisted_activated)
  finally show ?thesis
    using False assms by (simp add: get_plugin_whitelist_commands_def Let_def)
qed

lemma map_of_fold_scan_kept:
  "map_of (fold (scan_kept keep reg) stars []) k =
     (if commands_of keep reg stars k = [] then None
      else Some (dedup_first (commands_of keep reg stars k)))"
proof -
  have "get_list [] k = []"
    by (simp add: get_list_def)
  then have "get_list (fold (scan_kept keep reg) stars []) k =
             dedup_first (commands_of keep reg stars k)"
    by (simp add: get_list_fold_scan_kept fold_append_new_Nil)
  moreover have "k \<in> set (keys (fold (scan_kept keep reg) stars [])) \<longleftrightarrow>
                 commands_of keep reg stars k \<noteq> []"
  proof -
    have "set (keys ([] :: (pystr, pystr list) dict)) = {}"
      by (simp add: keys_def)
    then show ?thesis
      by (simp add: keys_fold_scan_kept)
  qed
  ultimately show ?thesis
    by (simp add: map_of_get_list)
qed

lemma commands_of_nonempty:
  "commands_of keep reg stars k \<noteq> [] \<Longrightarrow>
   \<exists>s \<in> set stars. keep s \<and> plugin_name_of s = Some k"
  by (auto simp: commands_of_def split: if_splits)

lemma commands_of_member:
  assumes "s \<in> set stars" and "keep s" and "plugin_name_of s = Some k"
    and "fc \<in> set (handler_commands reg (module_path s))"
  shows "fc \<in> set (commands_of keep reg stars k)"
  using assms by (auto simp: commands_of_def)

lemma handler_commands_member:
  assumes "Metadata h \<in> set reg" and "Some (handler_module_path h) = mp"
    and "format_command h = Some fc"
  shows "fc \<in> set (handler_commands reg mp)"
proof -
  have "fc \<in> set (item_commands mp (Metadata h))"
    using assms by (simp add: item_commands_def)
  with assms(1) show ?thesis
    unfolding handler_commands_def by auto
qed

lemma retained_registry_update:
  "retained (self\<lparr>get_all_stars := x\<rparr>) = retained self"
  by (simp add: retained_def is_self_star_def is_self_def fun_eq_iff split: option.splits)

subsection \<open>C1: the functions handed to the host for two entries\<close>


subsection \<open>C2, C3, C8: the access gate and the full discovery\<close>

lemma discover_replies: "discover self star_handlers_registry \<noteq> Inr []"
  by (simp add: discover_def Let_def split: sum.splits)

lemma get_help_gate:
  assumes "raw_message ev = Some raw"
  shows "get_help self star_handlers_registry ev =
           (if get_whitelist (config self) \<noteq> [] \<and> get_user_id raw \<noteq> PNone \<and>
               py_str (get_user_id raw) \<notin> set (map py_str (get_whitelist (config self)))
            then Inr [] else discover self star_handlers_registry)"
  using assms by (simp add: get_help_def Let_def)

lemma py_str_123: "dec 123 = ustr ''123''" "dec 456 = ustr ''456''"
  by (simp_all add: dec.simps ustr_def)

text \<open>
  Claim C2. For an event whose payload is there, with caller whitelist \<open>W\<close> and caller id
  \<open>uid\<close>: an empty whitelist lets every caller through to the discovery; otherwise a
  caller with an id gets through exactly when \<open>str(uid)\<close> is among the \<open>str\<close> of the
  entries; with the whitelist \<open>["123"]\<close> the ids \<open>123\<close> and \<open>"123"\<close> get through and \<open>456\<close>
  gets the empty list of replies, which the discovery never yields.
\<close>

theorem access_gate:
  assumes ev: "raw_message ev = Some raw"
    and W: "get_whitelist (config self) = W"
    and uid: "get_user_id raw = uid"
  shows "(W = [] \<longrightarrow>
            get_help self star_handlers_registry ev = discover self star_handlers_registry) \<and>
         (W \<noteq> [] \<and> uid \<noteq> PNone \<longrightarrow>
            get_help self star_handlers_registry ev =
              (if py_str uid \<in> set (map py_str W) then discover self star_handlers_registry
               else Inr [])) \<and>
         (W = [PStr (ustr ''123'')] \<and> (uid = PInt 123 \<or> uid = PStr (ustr ''123'')) \<longrightarrow>
            get_help self star_handlers_registry ev = discover self star_handlers_registry) \<and>
         (W = [PStr (ustr ''123'')] \<and> uid = PInt 456 \<longrightarrow>
            get_help self star_handlers_registry ev = Inr []) \<and>
         discover self star_handlers_registry \<noteq> Inr []"
proof -
  have "ustr ''456'' \<noteq> ustr ''123''"
    by (simp add: ustr_def)
  then show ?thesis
    unfolding get_help_gate [OF ev] W uid
    by (auto simp: py_str_123 discover_replies)
qed

text \<open>
  The witness: the sample host with the caller whitelist \<open>["123"]\<close>, and with an empty
  one. The discovery draws the commands of \<open>A\<close> and \<open>B\<close>.
\<close>

theorem access_gate_witness:
  "get_help (sample_self (cfg_callers [PStr (ustr ''123'')]) (Inr sample_stars)) sample_registry
     (event_from (PInt 123)) =
     Inr [ChainResult [(ustr ''A'', [ustr ''a1#first'', ustr ''a2'']), (ustr ''B'', [ustr ''b1''])]] \<and>
   get_help (sample_self (cfg_callers [PStr (ustr ''123'')]) (Inr sample_stars)) sample_registry
     (event_from (PStr (ustr ''123''))) =
     Inr [ChainResult [(ustr ''A'', [ustr ''a1#first'', ustr ''a2'']), (ustr ''B'', [ustr ''b1''])]] \<and>
   get_help (sample_self (cfg_callers [PStr (ustr ''123'')]) (Inr sample_stars)) sample_registry
     (event_from (PInt 456)) = Inr [] \<and>
   get_help (sample_self (cfg_callers []) (Inr sample_stars)) sample_registry
     (event_from (PInt 456)) =
     Inr [ChainResult [(ustr ''A'', [ustr ''a1#first'', ustr ''a2'']), (ustr ''B'', [ustr ''b1''])]]"
proof -
  let ?s = "sample_self (cfg_callers [PStr (ustr ''123'')]) (Inr sample_stars)"
  let ?t = "sample_self (cfg_callers []) (Inr sample_stars)"
  have ev: "raw_message (event_from u) = Some [(ustr ''user_id'', u)]" for u
    by (simp add: event_from_def)
  have W: "get_whitelist (config ?s) = [PStr (ustr ''123'')]" "get_whitelist (config ?t) = []"
    by (simp_all add: get_whitelist_def sample_self_def cfg_callers_def)
  have uid: "get_user_id [(ustr ''user_id'', u)] = u" for u
    by (simp add: get_user_id_def)
  have d: "discover ?s sample_registry =
             Inr [ChainResult [(ustr ''A'', [ustr ''a1#first'', ustr ''a2'']),
                               (ustr ''B'', [ustr ''b1''])]]"
    "discover ?t sample_registry =
             Inr [ChainResult [(ustr ''A'', [ustr ''a1#first'', ustr ''a2'']),
                               (ustr ''B'', [ustr ''b1''])]]"
    by (simp_all add: discover_def cfg_callers_def sample_defs string_defs scan_defs)
  from access_gate [where star_handlers_registry = sample_registry,
      OF ev [of "PInt 123"] W(1) uid [of "PInt 123"]]
    access_gate [where star_handlers_registry = sample_registry,
      OF ev [of "PStr (ustr ''123'')"] W(1) uid [of "PStr (ustr ''123'')"]]
    access_gate [where star_handlers_registry = sample_registry,
      OF ev [of "PInt 456"] W(1) uid [of "PInt 456"]]
    access_gate [where star_handlers_registry = sample_registry,
      OF ev [of "PInt 456"] W(2) uid [of "PInt 456"]]
  show ?thesis
    unfolding d by (simp add: py_str_123 ustr_def)
qed

text \<open>
  Claim C3, the part the code keeps: a payload without a \<open>user_id\<close> field, or with the
  field holding \<open>None\<close>, passes the gate whatever the whitelist is.
\<close>

lemma get_help_no_user_id:
  assumes "raw_message ev = Some raw" and "get_user_id raw = PNone"
  shows "get_help self star_handlers_registry ev = discover self star_handlers_registry"
  using assms by (simp add: get_help_def Let_def)

text \<open>
  Claim C3, the part the code breaks: for an event whose message object carries no raw
  payload, \<open>raw\<close> is \<open>None\<close> and \<open>raw.get\<close> raises \<open>AttributeError\<close> before the gate is
  evaluated, for every configuration, empty whitelist included; the entry point does not
  proceed and the fault reaches the host.
\<close>

theorem get_help_without_payload:
  "get_help self star_handlers_registry \<lparr>raw_message = None\<rparr> = Inl AttributeError"
  by (simp add: get_help_def)

theorem get_help_without_payload_witness:
  "get_help (sample_self (cfg_callers []) (Inr sample_stars)) sample_registry
     \<lparr>raw_message = None\<rparr> = Inl AttributeError"
  by (rule get_help_without_payload)

text \<open>
  Claim C8. When the host's registry query raises, both scans return the empty mapping,
  the discovery replies with the one plain text "no plugin or command was found", and so
  does \<open>get_help\<close> for every event with a payload whose caller passes the gate; no image is
  drawn and nothing is raised.
\<close>

theorem registry_failure_fails_soft:
  assumes "get_all_stars self = Inl e"
  shows "get_all_commands self star_handlers_registry = [] \<and>
         get_plugin_whitelist_commands self star_handlers_registry = [] \<and>
         discover self star_handlers_registry = Inr [PlainResult msg_no_commands] \<and>
         (\<forall>ev raw. raw_message ev = Some raw \<and>
            (get_whitelist (config self) = [] \<or> get_user_id raw = PNone \<or>
             py_str (get_user_id raw) \<in> set (map py_str (get_whitelist (config self)))) \<longrightarrow>
            get_help self star_handlers_registry ev = Inr [PlainResult msg_no_commands])"
proof -
  have 1: "get_all_commands self star_handlers_registry = []"
    using assms by (simp add: get_all_commands_def)
  have 2: "get_plugin_whitelist_commands self star_handlers_registry = []"
    using assms by (simp add: get_plugin_whitelist_commands_def Let_def)
  have 3: "discover self star_handlers_registry = Inr [PlainResult msg_no_commands]"
    using 1 by (simp add: discover_def)
  show ?thesis
    using 1 2 3 by (auto simp: get_help_gate)
qed

theorem registry_failure_fails_soft_witness:
  "get_all_commands (sample_self (cfg_callers [PStr (ustr ''123'')]) (Inl (Raised 1)))
     sample_registry = [] \<and>
   get_help (sample_self (cfg_callers [PStr (ustr ''123'')]) (Inl (Raised 1))) sample_registry
     (event_from (PInt 123)) = Inr [PlainResult msg_no_commands]"
proof -
  let ?s = "sample_self (cfg_callers [PStr (ustr ''123'')]) (Inl (Raised 1))"
  have raises: "get_all_stars ?s = Inl (Raised 1)"
    by (simp add: sample_self_def)
  have ev: "raw_message (event_from (PInt 123)) = Some [(ustr ''user_id'', PInt 123)] \<and>
            (get_whitelist (config ?s) = [] \<or> get_user_id [(ustr ''user_id'', PInt 123)] = PNone \<or>
             py_str (get_user_id [(ustr ''user_id'', PInt 123)])
               \<in> set (map py_str (get_whitelist (config ?s))))"
    by (simp add: event_from_def get_user_id_def get_whitelist_def sample_self_def
        cfg_callers_def py_str_123)
  from registry_failure_fails_soft [where star_handlers_registry = sample_registry, OF raises] ev
  show ?thesis by blast
qed

subsection \<open>C4: the attribute name of a synthesized handler\<close>

text \<open>
  The attribute name is a function of the trigger command, and it tells apart any two
  trigger commands without an underscore.
\<close>

lemma replace_space_inj:
  "95 \<notin> set c1 \<Longrightarrow> 95 \<notin> set c2 \<Longrightarrow> replace_space c1 = replace_space c2 \<Longrightarrow> c1 = c2"
proof (induction c1 arbitrary: c2)
  case Nil
  then show ?case by (simp add: replace_space_def)
next
  case (Cons a c1)
  then obtain b c2' where c2: "c2 = b # c2'"
    by (cases c2) (auto simp: replace_space_def)
  with Cons.prems have "a = b"
    by (auto simp: replace_space_def split: if_splits)
  moreover from Cons.prems c2 have "c1 = c2'"
    by (intro Cons.IH) (auto simp: replace_space_def)
  ultimately show ?case using c2 by simp
qed

lemma handler_name_inj:
  "95 \<notin> set c1 \<Longrightarrow> 95 \<notin> set c2 \<Longrightarrow> handler_name c1 = handler_name c2 \<Longrightarrow> c1 = c2"
  by (auto simp: handler_name_def dest: replace_space_inj)

text \<open>
  Claim C4 fails on the code. The trigger commands \<open>a b\<close> and \<open>a_b\<close> are distinct, and
  line 71 gives both the attribute name \<open>whitelist_a_b\<close>: with the entries \<open>P-a b\<close> and
  \<open>Q-a_b\<close> the host gets two handlers, and the second \<open>setattr\<close> overwrites the first, so
  the instance keeps the handler of \<open>Q\<close> only.
\<close>

theorem handler_name_collision:
  "ustr ''a b'' \<noteq> ustr ''a_b'' \<and>
   handler_name (ustr ''a b'') = ustr ''whitelist_a_b'' \<and>
   handler_name (ustr ''a_b'') = ustr ''whitelist_a_b'' \<and>
   registered (init (cfg_of [PStr (ustr ''P-a b''), PStr (ustr ''Q-a_b'')])) =
     [(ustr ''a b'', Closure (ustr ''P'')), (ustr ''a_b'', Closure (ustr ''Q''))] \<and>
   attributes (init (cfg_of [PStr (ustr ''P-a b''), PStr (ustr ''Q-a_b'')])) =
     [(ustr ''whitelist_a_b'', Closure (ustr ''Q''))]"
  by (simp add: init_def create_whitelist_handlers_def handler_name_def filter_command_def
      make_handler_def Let_def sample_defs string_defs scan_defs)

subsection \<open>C5: what the parser makes of one entry\<close>

text \<open>
  Claim C5 as stated fails when a later entry assigns the same key: of two entries with
  the trigger \<open>x\<close> the trigger view keeps the extension of the second, and of two entries
  of the extension \<open>A\<close> the plugin view keeps the trigger of the second.
\<close>

theorem whitelist_parser_overwrite_counterexample:
  "map_of (parse_whitelist_config (cfg_of [PStr (ustr ''A-x''), PStr (ustr ''C-x'')]))
     (ustr ''x'') \<noteq> Some (ustr ''A'') \<and>
   map_of (whitelist_by_plugin [PStr (ustr ''A-x''), PStr (ustr ''A-y'')]) (ustr ''A'')
     \<noteq> Some (ustr ''x'')"
  by (simp add: sample_defs string_defs scan_defs)

text \<open>
  Claim C5, amended. Take any configuration and any one of its items. If the item is a
  string \<open>A-B\<close> whose part \<open>A\<close> before the first separator has no separator (so \<open>B\<close> may
  have some), then the trigger-keyed view maps the trimmed \<open>B\<close> to the trimmed \<open>A\<close> unless
  a later item has the same trimmed trigger, and the plugin-keyed view maps the trimmed
  \<open>A\<close> to the trimmed \<open>B\<close> unless a later item has the same trimmed plugin name. If the
  item is not a string with a separator, both views are the ones of the configuration
  without the item. The parser is a total function: it raises nothing.
\<close>

theorem whitelist_parser_entry:
  assumes cfg: "get_plugin_whitelist cfg = pre @ item # post"
  shows "(\<forall>A B. item = PStr (A @ dash # B) \<and> dash \<notin> set A \<longrightarrow>
            (Some (strip B) \<notin> trigger_of ` set post \<longrightarrow>
               map_of (parse_whitelist_config cfg) (strip B) = Some (strip A)) \<and>
            (Some (strip A) \<notin> plugin_of ` set post \<longrightarrow>
               map_of (whitelist_by_plugin (get_plugin_whitelist cfg)) (strip A) =
                 Some (strip B))) \<and>
         ((\<forall>s. item = PStr s \<longrightarrow> dash \<notin> set s) \<longrightarrow>
            (\<forall>cfg'. get_plugin_whitelist cfg' = pre @ post \<longrightarrow>
               parse_whitelist_config cfg = parse_whitelist_config cfg' \<and>
               whitelist_by_plugin (get_plugin_whitelist cfg) =
                 whitelist_by_plugin (get_plugin_whitelist cfg')))"
proof (intro conjI allI impI)
  fix A B
  assume item: "item = PStr (A @ dash # B) \<and> dash \<notin> set A"
  then have e: "entry_of item = Some (strip B, strip A)"
    by (simp add: entry_of_form)
  {
    assume "Some (strip B) \<notin> trigger_of ` set post"
    with e show "map_of (parse_whitelist_config cfg) (strip B) = Some (strip A)"
      unfolding parse_whitelist_config_def cfg by (rule fold_parse_entry)
  }
  {
    assume "Some (strip A) \<notin> plugin_of ` set post"
    with e show "map_of (whitelist_by_plugin (get_plugin_whitelist cfg)) (strip A) =
                   Some (strip B)"
      unfolding whitelist_by_plugin_def cfg by (rule fold_parse_by_plugin_entry)
  }
next
  fix cfg'
  assume nodash: "\<forall>s. item = PStr s \<longrightarrow> dash \<notin> set s"
    and cfg': "get_plugin_whitelist cfg' = pre @ post"
  from nodash have e: "entry_of item = None"
    by (cases item) (simp_all add: entry_of_def)
  from e show "parse_whitelist_config cfg = parse_whitelist_config cfg'"
    unfolding parse_whitelist_config_def cfg cfg' by (rule fold_parse_skip)
  from e show "whitelist_by_plugin (get_plugin_whitelist cfg) =
                 whitelist_by_plugin (get_plugin_whitelist cfg')"
    unfolding whitelist_by_plugin_def cfg cfg' by (rule fold_parse_by_plugin_skip)
qed

text \<open>
  The witness: an earlier item with the same trigger, blanks around both parts, a trigger
  that contains the separator, and an item that is not a string.
\<close>

theorem whitelist_parser_entry_witness:
  "map_of (parse_whitelist_config
       (cfg_of [PStr (ustr ''Old-w-help''), PStr (ustr '' Weather - w-help ''), PInt 7]))
     (ustr ''w-help'') = Some (ustr ''Weather'') \<and>
   map_of (whitelist_by_plugin
       [PStr (ustr ''Old-w-help''), PStr (ustr '' Weather - w-help ''), PInt 7])
     (ustr ''Weather'') = Some (ustr ''w-help'') \<and>
   parse_whitelist_config (cfg_of [PStr (ustr ''A-x''), PStr (ustr ''no separator'')]) =
     parse_whitelist_config (cfg_of [PStr (ustr ''A-x'')])"
proof -
  let ?c = "cfg_of [PStr (ustr ''Old-w-help''), PStr (ustr '' Weather - w-help ''), PInt 7]"
  have c: "get_plugin_whitelist ?c =
             [PStr (ustr ''Old-w-help'')] @ PStr (ustr '' Weather - w-help '') # [PInt 7]"
    by (simp add: get_plugin_whitelist_def cfg_of_def)
  have form: "PStr (ustr '' Weather - w-help '') = PStr (ustr '' Weather '' @ dash # ustr '' w-help '')
              \<and> dash \<notin> set (ustr '' Weather '')"
    by (simp add: ustr_def dash_def)
  have post: "Some (strip (ustr '' w-help '')) \<notin> trigger_of ` set [PInt 7]"
             "Some (strip (ustr '' Weather '')) \<notin> plugin_of ` set [PInt 7]"
    by (simp_all add: trigger_of_def plugin_of_def entry_of_def)
  have s: "strip (ustr '' w-help '') = ustr ''w-help''" "strip (ustr '' Weather '') = ustr ''Weather''"
    by (simp_all add: strip_def ustr_def is_space_def)
  let ?d = "cfg_of [PStr (ustr ''A-x''), PStr (ustr ''no separator'')]"
  have d: "get_plugin_whitelist ?d = [PStr (ustr ''A-x'')] @ PStr (ustr ''no separator'') # []"
    by (simp add: get_plugin_whitelist_def cfg_of_def)
  have nodash: "\<forall>s. PStr (ustr ''no separator'') = PStr s \<longrightarrow> dash \<notin> set s"
    by (simp add: ustr_def dash_def)
  have d': "get_plugin_whitelist (cfg_of [PStr (ustr ''A-x'')]) = [PStr (ustr ''A-x'')] @ []"
    by (simp add: get_plugin_whitelist_def cfg_of_def)
  from whitelist_parser_entry [OF c] form post
  have "map_of (parse_whitelist_config ?c) (strip (ustr '' w-help '')) = Some (strip (ustr '' Weather ''))"
    and "map_of (whitelist_by_plugin (get_plugin_whitelist ?c)) (strip (ustr '' Weather '')) =
           Some (strip (ustr '' w-help ''))"
    by blast+
  moreover from whitelist_parser_entry [OF d] nodash d'
  have "parse_whitelist_config ?d = parse_whitelist_config (cfg_of [PStr (ustr ''A-x'')])"
    by blast
  ultimately show ?thesis
    unfolding s c by simp
qed

subsection \<open>C6: the parsed pairs are trimmed, not checked for emptiness\<close>

lemma dropWhile_self: "xs = [] \<or> \<not> P (hd xs) \<Longrightarrow> dropWhile P xs = xs"
  by (cases xs) auto

lemma strip_idem: "strip (strip x) = strip x"
proof -
  let ?d = "dropWhile is_space x"
  let ?e = "dropWhile is_space (rev ?d)"
  have e: "strip x = rev ?e"
    by (simp add: strip_def)
  have "dropWhile is_space (rev ?e) = rev ?e"
  proof (cases "?e = []")
    case True
    show ?thesis unfolding True by simp
  next
    case False
    have d: "?d \<noteq> []"
    proof
      assume a: "?d = []"
      from False show False
        unfolding a by simp
    qed
    then have h: "\<not> is_space (hd ?d)"
      by (rule hd_dropWhile)
    from d h have "hd ?d \<in> set (rev ?d)" "\<not> is_space (hd ?d)"
      by simp_all
    then have "last ?e = last (rev ?d)"
      by (rule dropWhile_last)
    with d have "last ?e = hd ?d"
      by (simp add: last_rev)
    with False h have "\<not> is_space (hd (rev ?e))"
      by (simp add: hd_rev)
    then show ?thesis
      by (intro dropWhile_self) simp
  qed
  then have "strip (rev ?e) = rev (dropWhile is_space ?e)"
    by (simp add: strip_def)
  also have "\<dots> = rev ?e"
    by simp
  finally show ?thesis
    unfolding e .
qed

lemma set_fold_parse_item:
  "set (fold parse_item items d) \<subseteq>
     set d \<union> {(t, p). \<exists>item \<in> set items. entry_of item = Some (t, p)}"
proof (induction items arbitrary: d)
  case Nil
  then show ?case by simp
next
  case (Cons item items)
  have "set (parse_item item d) \<subseteq> set d \<union> {(t, p). entry_of item = Some (t, p)}"
    using set_dict_set by (fastforce simp: parse_item_entry split: option.splits)
  with Cons.IH [of "parse_item item d"] show ?case
    by auto
qed

lemma set_fold_parse_item_by_plugin:
  "set (fold parse_item_by_plugin items d) \<subseteq>
     set d \<union> {(p, t). \<exists>item \<in> set items. entry_of item = Some (t, p)}"
proof (induction items arbitrary: d)
  case Nil
  then show ?case by simp
next
  case (Cons item items)
  have "set (parse_item_by_plugin item d) \<subseteq> set d \<union> {(p, t). entry_of item = Some (t, p)}"
    using set_dict_set by (fastforce simp: parse_item_by_plugin_entry split: option.splits)
  with Cons.IH [of "parse_item_by_plugin item d"] show ?case
    by auto
qed

lemma keys_fold_parse_item:
  "set (keys (fold parse_item items d)) =
     set (keys d) \<union> {t. \<exists>item \<in> set items. trigger_of item = Some t}"
  by (induction items arbitrary: d)
     (auto simp: parse_item_entry keys_dict_set trigger_of_def split: option.splits)

lemma keys_fold_parse_item_by_plugin:
  "set (keys (fold parse_item_by_plugin items d)) =
     set (keys d) \<union> {p. \<exists>item \<in> set items. plugin_of item = Some p}"
  by (induction items arbitrary: d)
     (auto simp: parse_item_by_plugin_entry keys_dict_set plugin_of_def split: option.splits)

lemma entry_of_PStr:
  "entry_of item = Some (t, p) \<longleftrightarrow>
     (\<exists>s. item = PStr s \<and> dash \<in> set s \<and> t = strip (snd (split_first s)) \<and>
          p = strip (fst (split_first s)))"
  by (cases item) (auto simp: entry_of_def)

text \<open>
  Claim C6 as stated fails: the parser makes no emptiness check. The entries \<open>A-\<close> and
  \<open>-B\<close> are kept, the first with the empty trigger command, the second with the empty
  plugin name, in both views.
\<close>

theorem parsed_pairs_nonempty_counterexample:
  "parse_whitelist_config (cfg_of [PStr (ustr ''A-''), PStr (ustr ''-B'')]) =
     [([], ustr ''A''), (ustr ''B'', [])] \<and>
   whitelist_by_plugin [PStr (ustr ''A-''), PStr (ustr ''-B'')] =
     [(ustr ''A'', []), ([], ustr ''B'')]"
  by (simp add: sample_defs string_defs scan_defs)

text \<open>
  Claim C6, amended. Every pair of either view is the trimmed right part and the trimmed
  left part of some string item that contains the separator, split at its first
  separator; both components are trimmed (trimming them again changes nothing). No such
  item is dropped: its trimmed parts are keys of the two views. A trimmed part is empty
  exactly when the part is empty or all white space, so the components are non-empty
  when both sides of the first separator of every such item hold a character that is not
  white space.
\<close>

theorem parsed_pairs_trimmed:
  assumes items: "get_plugin_whitelist cfg = items"
  shows "(\<forall>t p. (t, p) \<in> set (parse_whitelist_config cfg) \<or>
                 (p, t) \<in> set (whitelist_by_plugin items) \<longrightarrow>
            (\<exists>s. PStr s \<in> set items \<and> dash \<in> set s \<and>
                 t = strip (snd (split_first s)) \<and> p = strip (fst (split_first s))) \<and>
            strip t = t \<and> strip p = p) \<and>
         (\<forall>s. PStr s \<in> set items \<and> dash \<in> set s \<longrightarrow>
            strip (snd (split_first s)) \<in> set (keys (parse_whitelist_config cfg)) \<and>
            strip (fst (split_first s)) \<in> set (keys (whitelist_by_plugin items))) \<and>
         (\<forall>x. strip x = [] \<longleftrightarrow> (\<forall>c \<in> set x. is_space c))"
proof (intro conjI allI impI)
  fix t p
  assume "(t, p) \<in> set (parse_whitelist_config cfg) \<or> (p, t) \<in> set (whitelist_by_plugin items)"
  then have "\<exists>item \<in> set items. entry_of item = Some (t, p)"
    using set_fold_parse_item [of items "[]"] set_fold_parse_item_by_plugin [of items "[]"]
    unfolding parse_whitelist_config_def whitelist_by_plugin_def items by auto
  then obtain s where s: "PStr s \<in> set items" "dash \<in> set s"
    "t = strip (snd (split_first s))" "p = strip (fst (split_first s))"
    unfolding entry_of_PStr by blast
  then show "\<exists>s. PStr s \<in> set items \<and> dash \<in> set s \<and>
                 t = strip (snd (split_first s)) \<and> p = strip (fst (split_first s))"
    by blast
  from s show "strip t = t" "strip p = p"
    by (simp_all add: strip_idem)
next
  fix s
  assume s: "PStr s \<in> set items \<and> dash \<in> set s"
  then have e: "entry_of (PStr s) = Some (strip (snd (split_first s)), strip (fst (split_first s)))"
    by (simp add: entry_of_def)
  with s show "strip (snd (split_first s)) \<in> set (keys (parse_whitelist_config cfg))"
    unfolding parse_whitelist_config_def items keys_fold_parse_item
    by (auto simp: trigger_of_def intro!: bexI [of _ "PStr s"])
  from e s show "strip (fst (split_first s)) \<in> set (keys (whitelist_by_plugin items))"
    unfolding whitelist_by_plugin_def keys_fold_parse_item_by_plugin
    by (auto simp: plugin_of_def intro!: bexI [of _ "PStr s"])
next
  fix x
  show "strip x = [] \<longleftrightarrow> (\<forall>c \<in> set x. is_space c)"
  proof -
    have "strip x = [] \<longleftrightarrow> (\<forall>c \<in> set (dropWhile is_space x). is_space c)"
      by (simp add: strip_def dropWhile_eq_Nil_conv)
    also have "\<dots> \<longleftrightarrow> dropWhile is_space x = []"
      by (metis dropWhile_eq_Nil_conv dropWhile_idem)
    finally show ?thesis
      by (simp add: dropWhile_eq_Nil_conv)
  qed
qed

text \<open>
  The witness: a well-formed entry with blanks around both parts, and the entry \<open>A-\<close>,
  whose empty trigger is a key of the trigger view.
\<close>

theorem parsed_pairs_trimmed_witness:
  "(ustr ''w'', ustr ''Weather'')
     \<in> set (parse_whitelist_config (cfg_of [PStr (ustr '' Weather - w ''), PStr (ustr ''A-'')])) \<and>
   strip (ustr ''w'') = ustr ''w'' \<and> strip (ustr ''Weather'') = ustr ''Weather'' \<and>
   strip (snd (split_first (ustr ''A-'')))
     \<in> set (keys (parse_whitelist_config (cfg_of [PStr (ustr '' Weather - w ''), PStr (ustr ''A-'')]))) \<and>
   strip (snd (split_first (ustr ''A-''))) = []"
proof -
  let ?items = "[PStr (ustr '' Weather - w ''), PStr (ustr ''A-'')]"
  have items: "get_plugin_whitelist (cfg_of ?items) = ?items"
    by (simp add: get_plugin_whitelist_def cfg_of_def)
  have pair: "(ustr ''w'', ustr ''Weather'') \<in> set (parse_whitelist_config (cfg_of ?items))"
    by (simp add: sample_defs string_defs scan_defs)
  have entry: "PStr (ustr ''A-'') \<in> set ?items \<and> dash \<in> set (ustr ''A-'')"
    by (simp add: ustr_def dash_def)
  have blank: "\<forall>c \<in> set (snd (split_first (ustr ''A-''))). is_space c"
    by (simp add: split_first_def ustr_def dash_def)
  from parsed_pairs_trimmed [OF items] pair entry blank
  show ?thesis
    by blast
qed

subsection \<open>C7: what the full scan never lists\<close>

text \<open>
  Claim C7. Every key of the mapping \<open>get_all_commands\<close> returns is none of the three
  reserved names and is the name of an extension of the registry that is activated and
  is not the help plugin's own instance. Moreover the deactivated extensions, those with
  a reserved name and the plugin's own instance have no effect on the result at all:
  removing them from the registry leaves the mapping as it is.
\<close>

theorem all_scan_excludes:
  "(\<forall>k \<in> set (keys (get_all_commands self star_handlers_registry)).
      k \<noteq> ustr ''astrbot'' \<and> k \<noteq> ustr ''astrbot_plugin_help'' \<and>
      k \<noteq> ustr ''astrbot-reminder'' \<and>
      (\<exists>stars s. get_all_stars self = Inr stars \<and> s \<in> set stars \<and>
         plugin_name_of s = Some k \<and> activated s \<and> \<not> is_self_star self s)) \<and>
   (\<forall>stars. get_all_stars self = Inr stars \<longrightarrow>
      get_all_commands
        (self\<lparr>get_all_stars :=
           Inr (filter (\<lambda>s. activated s \<and> \<not> reserved (plugin_name_of s) \<and>
                            \<not> is_self_star self s) stars)\<rparr>)
        star_handlers_registry =
      get_all_commands self star_handlers_registry)"
proof (intro conjI ballI allI impI)
  fix k
  assume k: "k \<in> set (keys (get_all_commands self star_handlers_registry))"
  then obtain stars where stars: "get_all_stars self = Inr stars"
    by (cases "get_all_stars self") (simp_all add: get_all_commands_def keys_def)
  from k have "commands_of (retained self) star_handlers_registry stars k \<noteq> []"
    unfolding get_all_commands_kept [OF stars] keys_fold_scan_kept by (simp add: keys_def)
  then obtain s where s: "s \<in> set stars" "retained self s" "plugin_name_of s = Some k"
    by (blast dest: commands_of_nonempty)
  then have r: "\<not> reserved (Some k)" and a: "activated s" and i: "\<not> is_self_star self s"
    by (simp_all add: retained_def)
  from r show "k \<noteq> ustr ''astrbot''" "k \<noteq> ustr ''astrbot_plugin_help''"
    "k \<noteq> ustr ''astrbot-reminder''"
    by (simp_all add: reserved_def)
  from stars s a i
  show "\<exists>stars s. get_all_stars self = Inr stars \<and> s \<in> set stars \<and>
          plugin_name_of s = Some k \<and> activated s \<and> \<not> is_self_star self s"
    by blast
next
  fix stars
  assume stars: "get_all_stars self = Inr stars"
  let ?P = "\<lambda>s. activated s \<and> \<not> reserved (plugin_name_of s) \<and> \<not> is_self_star self s"
  let ?self = "self\<lparr>get_all_stars := Inr (filter ?P stars)\<rparr>"
  have "get_all_commands ?self star_handlers_registry =
        fold (scan_kept (retained self) star_handlers_registry) (filter ?P stars) []"
    by (simp add: get_all_commands_kept [of ?self "filter ?P stars"] retained_registry_update)
  also have "\<dots> = fold (scan_kept (retained self) star_handlers_registry) stars []"
    by (rule fold_scan_kept_filter) (simp add: retained_def)
  also have "\<dots> = get_all_commands self star_handlers_registry"
    by (simp add: get_all_commands_kept [OF stars])
  finally show "get_all_commands ?self star_handlers_registry =
                get_all_commands self star_handlers_registry" .
qed

text \<open>
  The witness: on the sample host only \<open>A\<close> and \<open>B\<close> are listed, and the result is the one
  for the registry reduced to these two.
\<close>

theorem all_scan_excludes_witness:
  "keys (get_all_commands (sample_self None (Inr sample_stars)) sample_registry) =
     [ustr ''A'', ustr ''B''] \<and>
   get_all_commands (sample_self None (Inr (take 2 sample_stars))) sample_registry =
     get_all_commands (sample_self None (Inr sample_stars)) sample_registry"
proof -
  let ?self = "sample_self None (Inr sample_stars)"
  have stars: "get_all_stars ?self = Inr sample_stars"
    by (simp add: sample_self_def)
  have upd: "?self\<lparr>get_all_stars :=
               Inr (filter (\<lambda>s. activated s \<and> \<not> reserved (plugin_name_of s) \<and>
                                \<not> is_self_star ?self s) sample_stars)\<rparr> =
             sample_self None (Inr (take 2 sample_stars))"
    by (simp add: sample_self_def sample_stars_def sample_star_def reserved_def
        plugin_name_of_def is_self_star_def is_self_def ustr_def)
  have keys: "keys (get_all_commands ?self sample_registry) = [ustr ''A'', ustr ''B'']"
    by (simp add: sample_defs string_defs scan_defs)
  from all_scan_excludes [of ?self sample_registry] stars
  have "get_all_commands
          (?self\<lparr>get_all_stars :=
             Inr (filter (\<lambda>s. activated s \<and> \<not> reserved (plugin_name_of s) \<and>
                              \<not> is_self_star ?self s) sample_stars)\<rparr>)
          sample_registry = get_all_commands ?self sample_registry"
    by blast
  then show ?thesis
    unfolding upd using keys by simp
qed

subsection \<open>C9: deduplication, first occurrence first\<close>

text \<open>
  Claim C9. For every extension name \<open>k\<close>, the list the scan returns for \<open>k\<close> is the list
  of the formatted strings of the retained handlers of the retained extensions named
  \<open>k\<close>, in registry order, with every string kept at its first occurrence only; there is
  no entry for \<open>k\<close> when there is no such string. So the list has no duplicates, it has
  exactly the strings contributed, and two handlers that format to the same string give
  one element, where the first stood. The same holds for the whitelist scan, and the keys
  of the mapping are distinct.
\<close>

theorem scan_deduplicates:
  assumes "get_all_stars self = Inr stars"
  shows "map_of (get_all_commands self star_handlers_registry) k =
           (if commands_of (retained self) star_handlers_registry stars k = [] then None
            else Some (dedup_first
                         (commands_of (retained self) star_handlers_registry stars k))) \<and>
         map_of (get_plugin_whitelist_commands self star_handlers_registry) k =
           (if commands_of (whitelisted self) star_handlers_registry stars k = [] then None
            else Some (dedup_first
                         (commands_of (whitelisted self) star_handlers_registry stars k))) \<and>
         (case map_of (get_all_commands self star_handlers_registry) k of
            None \<Rightarrow> True
          | Some cmds \<Rightarrow>
              distinct cmds \<and>
              set cmds = set (commands_of (retained self) star_handlers_registry stars k)) \<and>
         distinct (keys (get_all_commands self star_handlers_registry))"
proof -
  have "distinct (keys (fold (scan_kept (retained self) star_handlers_registry) stars []))"
    by (rule distinct_keys_fold_scan_kept) (simp add: keys_def)
  then show ?thesis
    by (simp add: get_all_commands_kept [OF assms] get_plugin_whitelist_commands_kept [OF assms]
        map_of_fold_scan_kept distinct_dedup_first set_dedup_first)
qed

text \<open>
  The witness: two handlers of \<open>A\<close> on the sample host format to \<open>a1#first\<close>; the list
  holds it once, before \<open>a2\<close>.
\<close>

theorem scan_deduplicates_witness:
  "commands_of (retained (sample_self None (Inr sample_stars))) sample_registry sample_stars
     (ustr ''A'') = [ustr ''a1#first'', ustr ''a1#first'', ustr ''a2''] \<and>
   map_of (get_all_commands (sample_self None (Inr sample_stars)) sample_registry) (ustr ''A'') =
     Some [ustr ''a1#first'', ustr ''a2'']"
proof -
  let ?self = "sample_self None (Inr sample_stars)"
  have stars: "get_all_stars ?self = Inr sample_stars"
    by (simp add: sample_self_def)
  have c: "commands_of (retained ?self) sample_registry sample_stars (ustr ''A'') =
             [ustr ''a1#first'', ustr ''a1#first'', ustr ''a2'']"
    by (simp add: commands_of_def retained_def handler_commands_def item_commands_def
        sample_defs string_defs scan_defs)
  have d: "dedup_first [ustr ''a1#first'', ustr ''a1#first'', ustr ''a2''] =
             [ustr ''a1#first'', ustr ''a2'']"
    by (simp add: ustr_def)
  from scan_deduplicates [OF stars, of sample_registry "ustr ''A''"]
  show ?thesis
    unfolding c d by simp
qed

subsection \<open>C10: the whitelist scan does not exclude the reserved names\<close>

text \<open>
  Claim C10. The whitelist scan returns, for every name \<open>k\<close>, the deduplicated commands of
  the extensions named \<open>k\<close> that are activated, listed in the plugin whitelist, have valid
  metadata and are not the help plugin's own instance; no other filter applies. So an
  activated, valid extension that the whitelist lists and that is not the plugin itself
  appears with each command of its handlers, whatever its name, reserved names included;
  and every key is the name of an activated, whitelisted extension that is not the plugin
  itself.
\<close>

theorem whitelist_scan_keeps_reserved:
  assumes stars: "get_all_stars self = Inr stars"
  shows "map_of (get_plugin_whitelist_commands self star_handlers_registry) k =
           (if commands_of (whitelisted self) star_handlers_registry stars k = [] then None
            else Some (dedup_first
                         (commands_of (whitelisted self) star_handlers_registry stars k))) \<and>
         (\<forall>s n h fc.
            s \<in> set stars \<and> activated s \<and> plugin_name_of s = Some n \<and>
            n \<in> set (keys (whitelist_by_plugin (get_plugin_whitelist (config self)))) \<and>
            \<not> invalid_metadata s \<and> \<not> is_self_star self s \<and>
            Metadata h \<in> set star_handlers_registry \<and>
            Some (handler_module_path h) = module_path s \<and> format_command h = Some fc \<longrightarrow>
            n \<in> set (keys (get_plugin_whitelist_commands self star_handlers_registry)) \<and>
            fc \<in> set (get_list (get_plugin_whitelist_commands self star_handlers_registry) n)) \<and>
         (\<forall>k \<in> set (keys (get_plugin_whitelist_commands self star_handlers_registry)).
            \<exists>s \<in> set stars. plugin_name_of s = Some k \<and> activated s \<and>
              \<not> is_self_star self s \<and>
              k \<in> set (keys (whitelist_by_plugin (get_plugin_whitelist (config self)))))"
proof (intro conjI allI impI ballI)
  let ?R = "get_plugin_whitelist_commands self star_handlers_registry"
  let ?C = "commands_of (whitelisted self) star_handlers_registry stars"
  show char: "map_of ?R k = (if ?C k = [] then None else Some (dedup_first (?C k)))" for k
    by (simp add: get_plugin_whitelist_commands_kept [OF stars] map_of_fold_scan_kept)
  have keys: "k \<in> set (keys ?R) \<longleftrightarrow> ?C k \<noteq> []" for k
    using char [of k] by (simp add: map_of_get_list split: if_splits)
  have list: "get_list ?R k = dedup_first (?C k)" for k
    using char [of k] by (simp add: get_list_def)
  {
    fix s n h fc
    assume a: "s \<in> set stars \<and> activated s \<and> plugin_name_of s = Some n \<and>
            n \<in> set (keys (whitelist_by_plugin (get_plugin_whitelist (config self)))) \<and>
            \<not> invalid_metadata s \<and> \<not> is_self_star self s \<and>
            Metadata h \<in> set star_handlers_registry \<and>
            Some (handler_module_path h) = module_path s \<and> format_command h = Some fc"
    then have "whitelisted self s"
      by (simp add: whitelisted_def)
    moreover from a have "fc \<in> set (handler_commands star_handlers_registry (module_path s))"
      by (intro handler_commands_member [of h]) simp_all
    ultimately have fc: "fc \<in> set (?C n)"
      using a by (intro commands_of_member [of s]) simp_all
    then show "n \<in> set (keys ?R)"
      unfolding keys by auto
    from fc show "fc \<in> set (get_list ?R n)"
      unfolding list by (simp add: set_dedup_first)
  }
  {
    fix k
    assume "k \<in> set (keys ?R)"
    then have "?C k \<noteq> []"
      unfolding keys .
    then obtain s where "s \<in> set stars" "whitelisted self s" "plugin_name_of s = Some k"
      by (blast dest: commands_of_nonempty)
    then show "\<exists>s \<in> set stars. plugin_name_of s = Some k \<and> activated s \<and>
              \<not> is_self_star self s \<and>
              k \<in> set (keys (whitelist_by_plugin (get_plugin_whitelist (config self))))"
      by (auto simp: whitelisted_def)
  }
qed

text \<open>
  The witness: the sample host with a whitelist that lists \<open>astrbot\<close>, the help plugin
  itself and a deactivated extension. \<open>astrbot\<close> is listed with its command; the other two
  are not.
\<close>

theorem whitelist_scan_keeps_reserved_witness:
  "reserved (Some (ustr ''astrbot'')) \<and>
   get_plugin_whitelist_commands (sample_self cfg_listed (Inr sample_stars)) sample_registry =
     [(ustr ''A'', [ustr ''a1#first'', ustr ''a2'']), (ustr ''astrbot'', [ustr ''plugin''])] \<and>
   ustr ''astrbot''
     \<in> set (keys (get_plugin_whitelist_commands (sample_self cfg_listed (Inr sample_stars))
                    sample_registry)) \<and>
   ustr ''plugin''
     \<in> set (get_list (get_plugin_whitelist_commands (sample_self cfg_listed (Inr sample_stars))
                        sample_registry) (ustr ''astrbot''))"
proof -
  let ?self = "sample_self cfg_listed (Inr sample_stars)"
  let ?s = "sample_star ''astrbot'' 3 ''core.mod'' True"
  let ?h = "\<lparr>handler_module_path = ustr ''core.mod'', desc = None,
             event_filters = [CommandFilter (ustr ''plugin'')]\<rparr>"
  have stars: "get_all_stars ?self = Inr sample_stars"
    by (simp add: sample_self_def)
  have r: "reserved (Some (ustr ''astrbot''))"
    by (simp add: reserved_def)
  have R: "get_plugin_whitelist_commands ?self sample_registry =
     [(ustr ''A'', [ustr ''a1#first'', ustr ''a2'']), (ustr ''astrbot'', [ustr ''plugin''])]"
    by (simp add: cfg_listed_def sample_defs string_defs scan_defs)
  have hyp: "?s \<in> set sample_stars \<and> activated ?s \<and> plugin_name_of ?s = Some (ustr ''astrbot'') \<and>
      ustr ''astrbot'' \<in> set (keys (whitelist_by_plugin (get_plugin_whitelist (config ?self)))) \<and>
      \<not> invalid_metadata ?s \<and> \<not> is_self_star ?self ?s \<and>
      Metadata ?h \<in> set sample_registry \<and>
      Some (handler_module_path ?h) = module_path ?s \<and>
      format_command ?h = Some (ustr ''plugin'')"
    by (simp add: cfg_listed_def sample_defs string_defs scan_defs)
  from whitelist_scan_keeps_reserved [OF stars, of sample_registry] hyp
  have "ustr ''astrbot'' \<in> set (keys (get_plugin_whitelist_commands ?self sample_registry)) \<and>
        ustr ''plugin''
          \<in> set (get_list (get_plugin_whitelist_commands ?self sample_registry) (ustr ''astrbot''))"
    by blast
  with r R show ?thesis by simp
qed

end
